theory Spec2Isabelle
  imports Main "HOL-Library.Word"
begin

unbundle bit_operations_syntax

section \<open>Shuttle VFD LEDs driver: data model\<close>

text \<open>
  The driver \<^verbatim>\<open>shuttle_leds.c\<close> keeps one \<^verbatim>\<open>struct shuttle_vfd\<close> per device:
  the global icon mask (\<^verbatim>\<open>unsigned long\<close>, 64 bits on the LP64 kernels the
  driver is built for), the 8-byte packet buffer and the 20-byte screen buffer.
  Bytes are \<^verbatim>\<open>unsigned char\<close>; \<^verbatim>\<open>enum led_brightness\<close> has no negative
  enumerator, so gcc makes it an \<^verbatim>\<open>unsigned int\<close>.

  The USB transport is outside the driver.  It is a parameter of the model:
  \<open>usb k p\<close> is the value \<^verbatim>\<open>usb_control_msg\<close> returns for the \<open>k\<close>-th
  transfer of the device when handed the packet \<open>p\<close> (negative: an errno).
  The packets handed to the transport, the codes printed by \<^verbatim>\<open>dev_err\<close> and
  the time spent in \<^verbatim>\<open>msleep\<close> are recorded in the state.
\<close>

type_synonym byte = "8 word"
type_synonym ulong = "64 word"
type_synonym led_brightness = "32 word"
type_synonym usb_control_msg = "nat \<Rightarrow> byte list \<Rightarrow> int"

definition SHUTTLE_VFD_WIDTH :: nat where
  "SHUTTLE_VFD_WIDTH = 20"

definition SHUTTLE_VFD_PACKET_SIZE :: nat where
  "SHUTTLE_VFD_PACKET_SIZE = 8"

definition SHUTTLE_VFD_DATA_SIZE :: nat where
  "SHUTTLE_VFD_DATA_SIZE = SHUTTLE_VFD_PACKET_SIZE - 1"

definition SHUTTLE_VFD_SLEEP_MS :: nat where
  "SHUTTLE_VFD_SLEEP_MS = 24"

definition SHUTTLE_VFD_INTERFACE :: nat where
  "SHUTTLE_VFD_INTERFACE = 1"

definition NUM_LEDS :: nat where
  "NUM_LEDS = 15"

definition SHUTTLE_VFD_ICON_VOL :: "led_brightness \<Rightarrow> led_brightness" where
  "SHUTTLE_VFD_ICON_VOL x = push_bit 15 x"

definition SHUTTLE_VFD_ICON_VOL_NUM :: nat where
  "SHUTTLE_VFD_ICON_VOL_NUM = 12"

definition SHUTTLE_VFD_BASE_MASK :: ulong where
  "SHUTTLE_VFD_BASE_MASK = 0x7FFF"

definition LED_OFF :: led_brightness where
  "LED_OFF = 0"

definition LED_ON :: led_brightness where
  "LED_ON = 1"

definition icon_names :: "string list" where
  "icon_names = [''tv'', ''cd'', ''music'', ''radio'', ''clock'', ''pause'', ''play'',
     ''record'', ''rewind'', ''camera'', ''mute'', ''repeat'', ''reverse'',
     ''fastforward'', ''stop'']"

record vfd_led =
  led_mask :: ulong
  name :: string
  max_brightness :: nat

record shuttle_vfd =
  icons_mask :: ulong
  packet :: "byte list"
  screen :: "byte list"
  wire :: "byte list list"
  errlog :: "int list"
  slept :: nat

text \<open>The arrays of the structure have a fixed size.\<close>

definition wf_vfd :: "shuttle_vfd \<Rightarrow> bool" where
  "wf_vfd vfd =
     (length (packet vfd) = SHUTTLE_VFD_PACKET_SIZE \<and> length (screen vfd) = SHUTTLE_VFD_WIDTH)"

text \<open>\<^verbatim>\<open>memset(dst, c, n)\<close> on a whole array and \<^verbatim>\<open>memcpy(dst + off, src, n)\<close>
  inside one, \<open>src\<close> holding the \<open>n\<close> bytes read.\<close>

definition memset_all :: "byte \<Rightarrow> nat \<Rightarrow> byte list" where
  "memset_all c n = replicate n c"

definition memcpy_at :: "byte list \<Rightarrow> nat \<Rightarrow> byte list \<Rightarrow> byte list" where
  "memcpy_at dst off src = take off dst @ src @ drop (off + length src) dst"

definition bytes_of :: "string \<Rightarrow> byte list" where
  "bytes_of s = map of_char s"

section \<open>Transport gate\<close>

text \<open>
  \<^verbatim>\<open>vfd_send_packet\<close>: under the mutex, one control transfer of the given packet
  (the packet buffer of the device when the pointer is NULL) and a sleep of 24 ms;
  after the unlock a negative result is logged; the result is returned.
\<close>

definition vfd_send_packet ::
  "usb_control_msg \<Rightarrow> shuttle_vfd \<Rightarrow> byte list option \<Rightarrow> int \<times> shuttle_vfd" where
  "vfd_send_packet usb vfd pkt =
     (let p = (case pkt of Some q \<Rightarrow> q | None \<Rightarrow> packet vfd);
          result = usb (length (wire vfd)) p;
          vfd = vfd\<lparr>wire := wire vfd @ [p]\<rparr>;
          vfd = vfd\<lparr>slept := slept vfd + SHUTTLE_VFD_SLEEP_MS\<rparr>;
          vfd = (if result < 0 then vfd\<lparr>errlog := errlog vfd @ [result]\<rparr> else vfd)
      in (result, vfd))"

section \<open>Protocol codec\<close>

definition vfd_reset_cursor :: "usb_control_msg \<Rightarrow> shuttle_vfd \<Rightarrow> bool \<Rightarrow> shuttle_vfd" where
  "vfd_reset_cursor usb vfd eraseall =
     (let vfd = vfd\<lparr>packet := memset_all 0 SHUTTLE_VFD_PACKET_SIZE\<rparr>;
          vfd = vfd\<lparr>packet := (packet vfd)[0 := push_bit 4 1 + 1]\<rparr>;
          vfd = (if eraseall then vfd\<lparr>packet := (packet vfd)[1 := 1]\<rparr>
                 else vfd\<lparr>packet := (packet vfd)[1 := 2]\<rparr>)
      in snd (vfd_send_packet usb vfd None))"

definition vfd_set_icons :: "usb_control_msg \<Rightarrow> shuttle_vfd \<Rightarrow> shuttle_vfd" where
  "vfd_set_icons usb vfd =
     (let vfd = vfd\<lparr>packet := memset_all 0 SHUTTLE_VFD_PACKET_SIZE\<rparr>;
          vfd = vfd\<lparr>packet := (packet vfd)[0 := push_bit 4 7 + 4]\<rparr>;
          vfd = vfd\<lparr>packet := (packet vfd)[1 := ucast (drop_bit 15 (icons_mask vfd) AND 0x1F)]\<rparr>;
          vfd = vfd\<lparr>packet := (packet vfd)[2 := ucast (drop_bit 10 (icons_mask vfd) AND 0x1F)]\<rparr>;
          vfd = vfd\<lparr>packet := (packet vfd)[3 := ucast (drop_bit 5 (icons_mask vfd) AND 0x1F)]\<rparr>;
          vfd = vfd\<lparr>packet := (packet vfd)[4 := ucast (icons_mask vfd AND 0x1F)]\<rparr>
      in snd (vfd_send_packet usb vfd None))"

text \<open>
  The loop of \<^verbatim>\<open>vfd_set_text\<close> over the full chunks: \<open>i\<close> counts them, \<open>p\<close> is
  the offset of the read pointer in the screen buffer.
\<close>

function vfd_set_text_loop ::
  "usb_control_msg \<Rightarrow> nat \<Rightarrow> nat \<Rightarrow> nat \<times> shuttle_vfd \<Rightarrow> nat \<times> shuttle_vfd" where
  "vfd_set_text_loop usb i n (p, vfd) =
     (if i < n then
        (let vfd = vfd\<lparr>packet := (packet vfd)[0 := push_bit 4 9 + of_nat SHUTTLE_VFD_DATA_SIZE]\<rparr>;
             vfd = vfd\<lparr>packet := memcpy_at (packet vfd) 1
                                     (take SHUTTLE_VFD_DATA_SIZE (drop p (screen vfd)))\<rparr>;
             p = p + SHUTTLE_VFD_DATA_SIZE;
             vfd = snd (vfd_send_packet usb vfd None)
         in vfd_set_text_loop usb (i + 1) n (p, vfd))
      else (p, vfd))"
  by pat_completeness auto
termination
  by (relation "measure (\<lambda>(usb, i, n, s). n - i)") auto

declare vfd_set_text_loop.simps [simp del]

text \<open>
  \<^verbatim>\<open>vfd_set_text\<close> reads \<open>len\<close> bytes of the screen buffer; the driver only calls
  it with the width of the display.  A longer read would leave the array: \<open>None\<close>.
\<close>

definition vfd_set_text :: "usb_control_msg \<Rightarrow> shuttle_vfd \<Rightarrow> nat \<Rightarrow> shuttle_vfd option" where
  "vfd_set_text usb vfd len =
     (if length (screen vfd) < len then None
      else
        (let (p, vfd) = vfd_set_text_loop usb 0 (len div SHUTTLE_VFD_DATA_SIZE) (0, vfd);
             len = len mod SHUTTLE_VFD_DATA_SIZE
         in if len \<noteq> 0 then
              (let vfd = vfd\<lparr>packet := memset_all 0 SHUTTLE_VFD_PACKET_SIZE\<rparr>;
                   vfd = vfd\<lparr>packet := (packet vfd)[0 := push_bit 4 9 + of_nat len]\<rparr>;
                   vfd = vfd\<lparr>packet := memcpy_at (packet vfd) 1 (take len (drop p (screen vfd)))\<rparr>
               in Some (snd (vfd_send_packet usb vfd None)))
            else Some vfd))"

section \<open>Text endpoint\<close>

text \<open>
  The write handler of the \<^verbatim>\<open>text\<close> attribute.  sysfs hands it the \<open>count\<close>
  bytes written: \<open>buf\<close> is those bytes and \<open>count\<close> their number.
\<close>

definition set_vfd_text_handler ::
  "usb_control_msg \<Rightarrow> shuttle_vfd \<Rightarrow> byte list \<Rightarrow> (int \<times> shuttle_vfd) option" where
  "set_vfd_text_handler usb vfd buf =
     (let count = length buf;
          vfd = (if count < SHUTTLE_VFD_WIDTH
                 then vfd\<lparr>screen := memset_all 0 SHUTTLE_VFD_WIDTH\<rparr> else vfd);
          l = min count SHUTTLE_VFD_WIDTH;
          vfd = vfd\<lparr>screen := memcpy_at (screen vfd) 0 (take l buf)\<rparr>;
          vfd = vfd_reset_cursor usb vfd False
      in map_option (\<lambda>vfd. (int count, vfd)) (vfd_set_text usb vfd SHUTTLE_VFD_WIDTH))"

text \<open>
  The read handler copies the screen into the output page and walks \<open>sz\<close> down
  from 20 while \<^verbatim>\<open>buf[sz-1]\<close> is NUL or a newline.  The loop has no lower bound:
  with \<open>sz = 0\<close> it reads \<^verbatim>\<open>buf[-1]\<close>, the byte before the page.
\<close>

datatype fault = Out_Of_Bounds int

fun trim_loop :: "byte list \<Rightarrow> nat \<Rightarrow> fault + nat" where
  "trim_loop buf 0 = Inl (Out_Of_Bounds (- 1))"
| "trim_loop buf (Suc n) =
     (if buf ! n = 0 \<or> buf ! n = 0x0A then trim_loop buf n else Inr (Suc n))"

definition get_vfd_text_handler :: "shuttle_vfd \<Rightarrow> fault + (int \<times> byte list)" where
  "get_vfd_text_handler vfd =
     (let buf = take SHUTTLE_VFD_WIDTH (screen vfd)
      in case trim_loop buf SHUTTLE_VFD_WIDTH of
           Inl f \<Rightarrow> Inl f
         | Inr sz \<Rightarrow> Inr (int sz + 1, take sz buf @ [0x0A]))"

section \<open>Light endpoints\<close>

definition vfd_led_generic_set ::
  "usb_control_msg \<Rightarrow> shuttle_vfd \<Rightarrow> vfd_led \<Rightarrow> led_brightness \<Rightarrow> shuttle_vfd" where
  "vfd_led_generic_set usb vfd led val =
     (let vfd = (if val \<noteq> LED_OFF then vfd\<lparr>icons_mask := icons_mask vfd OR led_mask led\<rparr>
                 else vfd\<lparr>icons_mask := icons_mask vfd AND NOT (led_mask led)\<rparr>)
      in vfd_set_icons usb vfd)"

definition vfd_led_volume_set ::
  "usb_control_msg \<Rightarrow> shuttle_vfd \<Rightarrow> vfd_led \<Rightarrow> led_brightness \<Rightarrow> shuttle_vfd" where
  "vfd_led_volume_set usb vfd led val =
     (let vfd = vfd\<lparr>icons_mask := icons_mask vfd AND SHUTTLE_VFD_BASE_MASK\<rparr>;
          vfd = (if val \<noteq> LED_OFF
                 then vfd\<lparr>icons_mask := icons_mask vfd OR ucast (SHUTTLE_VFD_ICON_VOL val)\<rparr>
                 else vfd)
      in vfd_set_icons usb vfd)"

section \<open>Device attach\<close>

definition icon_led :: "nat \<Rightarrow> vfd_led" where
  "icon_led i = \<lparr>led_mask = push_bit i 1, name = icon_names ! i, max_brightness = 1\<rparr>"

definition volume_led :: vfd_led where
  "volume_led = \<lparr>led_mask = 0, name = ''volume'', max_brightness = SHUTTLE_VFD_ICON_VOL_NUM\<rparr>"

definition kzalloc_vfd :: shuttle_vfd where
  "kzalloc_vfd = \<lparr>icons_mask = 0, packet = replicate SHUTTLE_VFD_PACKET_SIZE 0,
     screen = replicate SHUTTLE_VFD_WIDTH 0, wire = [], errlog = [], slept = 0\<rparr>"

definition ENOMEM :: int where
  "ENOMEM = 12"

text \<open>
  \<^verbatim>\<open>shuttle_vfd_probe\<close>: the interface number, whether \<^verbatim>\<open>kzalloc\<close> succeeds, the
  results of the 16 \<^verbatim>\<open>led_classdev_register\<close> calls (the volume is number 15) and
  of \<^verbatim>\<open>device_create_file\<close> come from the kernel.
\<close>

definition shuttle_vfd_probe ::
  "usb_control_msg \<Rightarrow> nat \<Rightarrow> bool \<Rightarrow> (nat \<Rightarrow> int) \<Rightarrow> int \<Rightarrow> int \<times> shuttle_vfd option" where
  "shuttle_vfd_probe usb bInterfaceNumber kzalloc_ok led_classdev_register device_create_file =
     (if bInterfaceNumber \<noteq> SHUTTLE_VFD_INTERFACE then (- ENOMEM, None)
      else if \<not> kzalloc_ok then (- ENOMEM, None)
      else
        (case find (\<lambda>i. led_classdev_register i < 0) [0..<NUM_LEDS] of
           Some i \<Rightarrow> (led_classdev_register i, None)
         | None \<Rightarrow>
             if led_classdev_register NUM_LEDS < 0 then (led_classdev_register NUM_LEDS, None)
             else if device_create_file \<noteq> 0 then (device_create_file, None)
             else (0, Some (vfd_reset_cursor usb kzalloc_vfd True))))"

section \<open>Concurrent callers\<close>

text \<open>
  Several callers can be inside the driver at once: the LED class calls the
  \<^verbatim>\<open>brightness_set\<close> callbacks of different LEDs from the processes that write
  their sysfs files, and nothing outside the driver serialises them.  A call is then a
  sequence of statements on the shared \<^verbatim>\<open>struct shuttle_vfd\<close>, and a run of the
  system is an interleaving of the statements of its threads.  Each statement of the
  source is one atomic step here; a finer grain only adds interleavings.

  The statements are those of \<^verbatim>\<open>vfd_led_generic_set\<close>, \<^verbatim>\<open>vfd_set_icons\<close> and
  \<^verbatim>\<open>vfd_send_packet\<close>, in the order of the source.
\<close>

datatype stmt =
    Mask_Or ulong  \<comment> \<open>\<^verbatim>\<open>led->vfd->icons_mask |= led->mask;\<close>\<close>
  | Mask_And ulong  \<comment> \<open>\<^verbatim>\<open>led->vfd->icons_mask &= ~led->mask;\<close>\<close>
  | Memset_Packet  \<comment> \<open>\<^verbatim>\<open>memset(&vfd->packet[0], 0, SHUTTLE_VFD_PACKET_SIZE);\<close>\<close>
  | Store_Header byte  \<comment> \<open>\<^verbatim>\<open>vfd->packet[0] = h;\<close>\<close>
  | Store_Group nat nat  \<comment> \<open>\<^verbatim>\<open>vfd->packet[i] = (vfd->icons_mask >> sh) & 0x1F;\<close>\<close>
  | Mutex_Lock  \<comment> \<open>\<^verbatim>\<open>mutex_lock(&vfd->vfd_mutex);\<close>\<close>
  | Usb_Control_Msg  \<comment> \<open>\<^verbatim>\<open>result = usb_control_msg(..., vfd->packet, 8, ...);\<close>\<close>
  | Msleep  \<comment> \<open>\<^verbatim>\<open>msleep(SHUTTLE_VFD_SLEEP_MS);\<close>\<close>
  | Mutex_Unlock  \<comment> \<open>\<^verbatim>\<open>mutex_unlock(&vfd->vfd_mutex);\<close>\<close>
  | Dev_Err  \<comment> \<open>\<^verbatim>\<open>if (result < 0) dev_err(...);\<close>\<close>

text \<open>
  A thread has the statements it still has to execute and its local \<^verbatim>\<open>result\<close>.
  The system is the device structure, the owner of its mutex and the threads.
\<close>

record thread =
  todo :: "stmt list"
  result :: int

record system =
  dev :: shuttle_vfd
  vfd_mutex :: "nat option"
  threads :: "thread list"

text \<open>
  One statement of thread \<open>t\<close>.  \<^verbatim>\<open>mutex_lock\<close> cannot be executed while the mutex is
  held: the thread is blocked, the step is \<open>None\<close>.
\<close>

fun exec ::
  "usb_control_msg \<Rightarrow> nat \<Rightarrow> stmt \<Rightarrow> shuttle_vfd \<times> nat option \<times> int
     \<Rightarrow> (shuttle_vfd \<times> nat option \<times> int) option" where
  "exec usb t (Mask_Or m) (v, mu, r) = Some (v\<lparr>icons_mask := icons_mask v OR m\<rparr>, mu, r)"
| "exec usb t (Mask_And m) (v, mu, r) = Some (v\<lparr>icons_mask := icons_mask v AND m\<rparr>, mu, r)"
| "exec usb t Memset_Packet (v, mu, r) =
     Some (v\<lparr>packet := memset_all 0 SHUTTLE_VFD_PACKET_SIZE\<rparr>, mu, r)"
| "exec usb t (Store_Header h) (v, mu, r) = Some (v\<lparr>packet := (packet v)[0 := h]\<rparr>, mu, r)"
| "exec usb t (Store_Group i sh) (v, mu, r) =
     Some (v\<lparr>packet := (packet v)[i := ucast (drop_bit sh (icons_mask v) AND 0x1F)]\<rparr>, mu, r)"
| "exec usb t Mutex_Lock (v, mu, r) = (if mu = None then Some (v, Some t, r) else None)"
| "exec usb t Usb_Control_Msg (v, mu, r) =
     Some (v\<lparr>wire := wire v @ [packet v]\<rparr>, mu, usb (length (wire v)) (packet v))"
| "exec usb t Msleep (v, mu, r) = Some (v\<lparr>slept := slept v + SHUTTLE_VFD_SLEEP_MS\<rparr>, mu, r)"
| "exec usb t Mutex_Unlock (v, mu, r) = (if mu = Some t then Some (v, None, r) else None)"
| "exec usb t Dev_Err (v, mu, r) =
     Some (if r < 0 then v\<lparr>errlog := errlog v @ [r]\<rparr> else v, mu, r)"

text \<open>
  A schedule is the list of the threads that take the next steps, one statement each.
  It is refused (\<open>None\<close>) when it picks a thread that has finished or is blocked.
\<close>

definition step :: "usb_control_msg \<Rightarrow> nat \<Rightarrow> system \<Rightarrow> system option" where
  "step usb t s =
     (if t < length (threads s) then
        (case todo (threads s ! t) of
           [] \<Rightarrow> None
         | c # cs \<Rightarrow>
             (case exec usb t c (dev s, vfd_mutex s, result (threads s ! t)) of
                None \<Rightarrow> None
              | Some (v, mu, r) \<Rightarrow>
                  Some (s\<lparr>dev := v, vfd_mutex := mu,
                          threads := (threads s)[t := \<lparr>todo = cs, result = r\<rparr>]\<rparr>)))
      else None)"

fun run :: "usb_control_msg \<Rightarrow> nat list \<Rightarrow> system \<Rightarrow> system option" where
  "run usb [] s = Some s"
| "run usb (t # ts) s = (case step usb t s of None \<Rightarrow> None | Some s' \<Rightarrow> run usb ts s')"

definition vfd_send_packet_stmts :: "stmt list" where
  "vfd_send_packet_stmts = [Mutex_Lock, Usb_Control_Msg, Msleep, Mutex_Unlock, Dev_Err]"

definition vfd_set_icons_stmts :: "stmt list" where
  "vfd_set_icons_stmts =
     [Memset_Packet, Store_Header (push_bit 4 7 + 4), Store_Group 1 15, Store_Group 2 10,
      Store_Group 3 5, Store_Group 4 0] @ vfd_send_packet_stmts"

definition vfd_led_generic_set_stmts :: "vfd_led \<Rightarrow> led_brightness \<Rightarrow> stmt list" where
  "vfd_led_generic_set_stmts led val =
     (if val \<noteq> LED_OFF then Mask_Or (led_mask led) else Mask_And (NOT (led_mask led)))
       # vfd_set_icons_stmts"

text \<open>The system before the calls \<open>ps\<close> start, on the device state \<open>v\<close>.\<close>

definition start :: "shuttle_vfd \<Rightarrow> stmt list list \<Rightarrow> system" where
  "start v ps = \<lparr>dev = v, vfd_mutex = None, threads = map (\<lambda>p. \<lparr>todo = p, result = 0\<rparr>) ps\<rparr>"


section \<open>Two transports for the examples\<close>

text \<open>
  A transport on which every transfer succeeds (\<^verbatim>\<open>usb_control_msg\<close> then returns the
  number of bytes transferred), and one on which every transfer fails with
  \<^verbatim>\<open>-ENODEV\<close>, as after the device is unplugged.
\<close>

definition ENODEV :: int where
  "ENODEV = 19"

definition usb_ok :: usb_control_msg where
  "usb_ok k p = int SHUTTLE_VFD_PACKET_SIZE"

definition usb_gone :: usb_control_msg where
  "usb_gone k p = - ENODEV"

section \<open>Closed forms used in the proofs\<close>

text \<open>
  These are not functions of the driver.  They name the states that the lemmas
  \<open>vfd_set_text_loop_step\<close>, \<open>vfd_set_text_width\<close> and \<open>set_vfd_text_handler_eq\<close> prove
  the driver's functions to compute: the state after one full chunk of 7 bytes read at
  offset \<open>p\<close> is sent, the state after the three text packets of a 20-byte screen are
  sent, and the screen buffer after a write of \<open>buf\<close>.
\<close>

definition chunk_sent :: "usb_control_msg \<Rightarrow> nat \<Rightarrow> shuttle_vfd \<Rightarrow> shuttle_vfd" where
  "chunk_sent usb p vfd =
     snd (vfd_send_packet usb (vfd\<lparr>packet := 0x97 # take 7 (drop p (screen vfd))\<rparr>) None)"

definition text_sent :: "usb_control_msg \<Rightarrow> shuttle_vfd \<Rightarrow> shuttle_vfd" where
  "text_sent usb vfd =
     (let vfd = chunk_sent usb 7 (chunk_sent usb 0 vfd)
      in snd (vfd_send_packet usb
           (vfd\<lparr>packet := 0x96 # take 6 (drop 14 (screen vfd)) @ [0]\<rparr>) None))"

definition screen_written :: "byte list \<Rightarrow> byte list" where
  "screen_written buf =
     take SHUTTLE_VFD_WIDTH buf @ replicate (SHUTTLE_VFD_WIDTH - length buf) 0"

section \<open>Effect of one send on each field\<close>

lemma vfd_send_packet_fields [simp]:
  "fst (vfd_send_packet usb vfd pkt) =
     usb (length (wire vfd)) (case pkt of Some q \<Rightarrow> q | None \<Rightarrow> packet vfd)"
  "icons_mask (snd (vfd_send_packet usb vfd pkt)) = icons_mask vfd"
  "packet (snd (vfd_send_packet usb vfd pkt)) = packet vfd"
  "screen (snd (vfd_send_packet usb vfd pkt)) = screen vfd"
  "wire (snd (vfd_send_packet usb vfd pkt)) =
     wire vfd @ [case pkt of Some q \<Rightarrow> q | None \<Rightarrow> packet vfd]"
  "slept (snd (vfd_send_packet usb vfd pkt)) = slept vfd + SHUTTLE_VFD_SLEEP_MS"
  "errlog (snd (vfd_send_packet usb vfd pkt)) =
     errlog vfd @ filter (\<lambda>r. r < 0)
       [usb (length (wire vfd)) (case pkt of Some q \<Rightarrow> q | None \<Rightarrow> packet vfd)]"
  by (simp_all add: vfd_send_packet_def Let_def)

section \<open>The icons packet\<close>

lemma vfd_set_icons_packet_eq:
  "packet (vfd_set_icons usb vfd) =
     [0x74, ucast (drop_bit 15 (icons_mask vfd) AND 0x1F),
      ucast (drop_bit 10 (icons_mask vfd) AND 0x1F),
      ucast (drop_bit 5 (icons_mask vfd) AND 0x1F), ucast (icons_mask vfd AND 0x1F), 0, 0, 0]"
  by (simp add: vfd_set_icons_def memset_all_def SHUTTLE_VFD_PACKET_SIZE_def eval_nat_numeral)

lemma vfd_set_icons_fields:
  "icons_mask (vfd_set_icons usb vfd) = icons_mask vfd"
  "screen (vfd_set_icons usb vfd) = screen vfd"
  "wire (vfd_set_icons usb vfd) = wire vfd @ [packet (vfd_set_icons usb vfd)]"
  "slept (vfd_set_icons usb vfd) = slept vfd + SHUTTLE_VFD_SLEEP_MS"
  by (simp_all add: vfd_set_icons_def)

lemma five_bits: "(0x1F :: 'a::len word) = mask 5"
  by (simp add: mask_eq_exp_minus_1)

lemma group_bit:
  "bit (ucast (drop_bit k (m::ulong) AND 0x1F) :: byte) n \<longleftrightarrow> n < 5 \<and> bit m (k + n)"
  unfolding five_bits by (auto simp add: bit_simps)

lemma group0_bit: "bit (ucast ((m::ulong) AND 0x1F) :: byte) n \<longleftrightarrow> n < 5 \<and> bit m n"
  unfolding five_bits by (auto simp add: bit_simps)

lemma group_high: "drop_bit 5 (ucast (drop_bit k (m::ulong) AND 0x1F) :: byte) = 0"
  unfolding five_bits by (rule bit_word_eqI) (auto simp add: bit_simps)

lemma group0_high: "drop_bit 5 (ucast ((m::ulong) AND 0x1F) :: byte) = 0"
  unfolding five_bits by (rule bit_word_eqI) (auto simp add: bit_simps)

text \<open>
  Claim C2.  Whatever the mask, \<^verbatim>\<open>vfd_set_icons\<close> hands the transport exactly one
  packet of 8 bytes.  Its first byte has command nibble 7 and length nibble 4; data
  bytes 1 to 4 hold bits 15-19, 10-14, 5-9 and 0-4 of the mask, so the upper three
  bits of each are zero; the last three bytes are zero; and for the mask 0 all data
  bytes are 0.
\<close>

theorem vfd_set_icons_packet_shape:
  "wire (vfd_set_icons usb vfd) = wire vfd @ [packet (vfd_set_icons usb vfd)]
    \<and> length (packet (vfd_set_icons usb vfd)) = SHUTTLE_VFD_PACKET_SIZE
    \<and> drop_bit 4 (packet (vfd_set_icons usb vfd) ! 0) = 7
    \<and> take_bit 4 (packet (vfd_set_icons usb vfd) ! 0) = 4
    \<and> (\<forall>n. bit (packet (vfd_set_icons usb vfd) ! 1) n = (n < 5 \<and> bit (icons_mask vfd) (15 + n)))
    \<and> (\<forall>n. bit (packet (vfd_set_icons usb vfd) ! 2) n = (n < 5 \<and> bit (icons_mask vfd) (10 + n)))
    \<and> (\<forall>n. bit (packet (vfd_set_icons usb vfd) ! 3) n = (n < 5 \<and> bit (icons_mask vfd) (5 + n)))
    \<and> (\<forall>n. bit (packet (vfd_set_icons usb vfd) ! 4) n = (n < 5 \<and> bit (icons_mask vfd) n))
    \<and> drop_bit 5 (packet (vfd_set_icons usb vfd) ! 1) = 0
    \<and> drop_bit 5 (packet (vfd_set_icons usb vfd) ! 2) = 0
    \<and> drop_bit 5 (packet (vfd_set_icons usb vfd) ! 3) = 0
    \<and> drop_bit 5 (packet (vfd_set_icons usb vfd) ! 4) = 0
    \<and> drop 5 (packet (vfd_set_icons usb vfd)) = [0, 0, 0]
    \<and> packet (vfd_set_icons usb (vfd\<lparr>icons_mask := 0\<rparr>)) = [0x74, 0, 0, 0, 0, 0, 0, 0]"
proof -
  let ?p = "packet (vfd_set_icons usb vfd)"
  let ?m = "icons_mask vfd"
  obtain a b c d where eq: "?p = [0x74, a, b, c, d, 0, 0, 0]"
    and a: "a = ucast (drop_bit 15 ?m AND 0x1F)" and b: "b = ucast (drop_bit 10 ?m AND 0x1F)"
    and c: "c = ucast (drop_bit 5 ?m AND 0x1F)" and d: "d = ucast (?m AND 0x1F)"
    using vfd_set_icons_packet_eq [of usb vfd] by blast
  have w: "wire (vfd_set_icons usb vfd) = wire vfd @ [?p]"
    by (rule vfd_set_icons_fields)
  have l: "length ?p = SHUTTLE_VFD_PACKET_SIZE"
    by (simp add: eq SHUTTLE_VFD_PACKET_SIZE_def)
  have h: "drop_bit 4 (?p ! 0) = 7" "take_bit 4 (?p ! 0) = 4"
    by (simp_all add: eq)
  have g1: "\<forall>n. bit (?p ! 1) n = (n < 5 \<and> bit ?m (15 + n))"
    by (simp add: eq a group_bit)
  have g2: "\<forall>n. bit (?p ! 2) n = (n < 5 \<and> bit ?m (10 + n))"
    by (simp add: eq b group_bit)
  have g3: "\<forall>n. bit (?p ! 3) n = (n < 5 \<and> bit ?m (5 + n))"
    by (simp add: eq c group_bit)
  have g4: "\<forall>n. bit (?p ! 4) n = (n < 5 \<and> bit ?m n)"
    by (simp add: eq d group0_bit)
  have z: "drop_bit 5 (?p ! 1) = 0" "drop_bit 5 (?p ! 2) = 0" "drop_bit 5 (?p ! 3) = 0"
    "drop_bit 5 (?p ! 4) = 0"
    unfolding eq a b c d by (simp_all add: group_high group0_high del: drop_bit_and)
  have t: "drop 5 ?p = [0, 0, 0]"
    by (simp add: eq)
  have e: "packet (vfd_set_icons usb (vfd\<lparr>icons_mask := 0\<rparr>)) = [0x74, 0, 0, 0, 0, 0, 0, 0]"
    by (simp add: vfd_set_icons_packet_eq)
  from w l h g1 g2 g3 g4 z t e show ?thesis by blast
qed

section \<open>Bit layout of icons and volume\<close>

lemma base_mask: "SHUTTLE_VFD_BASE_MASK = mask 15"
  by (simp add: SHUTTLE_VFD_BASE_MASK_def mask_eq_exp_minus_1)


lemma pos_cases:
  "pos < NUM_LEDS \<Longrightarrow> pos \<in> {0, 1, 2, 3, 4, 5, 6, 7, 8, 9, 10, 11, 12, 13, 14}"
  unfolding NUM_LEDS_def by (simp add: less_Suc_eq numeral_eq_Suc)

lemma single_icon_packet:
  assumes "pos < NUM_LEDS"
  shows "packet (vfd_set_icons usb (vfd\<lparr>icons_mask := push_bit pos 1\<rparr>)) =
     (replicate 8 0)[0 := 0x74, 4 - pos div 5 := push_bit (pos mod 5) 1]"
proof -
  have r: "replicate 8 (0::byte) = [0, 0, 0, 0, 0, 0, 0, 0]"
    by (simp add: numeral_eq_Suc)
  from pos_cases [OF assms] show ?thesis
    unfolding vfd_set_icons_packet_eq r
    by (elim insertE emptyE) simp_all
qed

lemma level_bits:
  fixes level :: led_brightness
  assumes "unat level \<le> SHUTTLE_VFD_ICON_VOL_NUM"
  shows "take_bit 4 level = level"
proof -
  from assms have "level < 2 ^ 4"
    by (simp add: word_less_nat_alt SHUTTLE_VFD_ICON_VOL_NUM_def)
  then show ?thesis by (simp add: take_bit_eq_mask less_mask_eq)
qed

lemma vol_group:
  fixes icons :: ulong and level :: led_brightness
  shows "(ucast (drop_bit 15 ((icons AND SHUTTLE_VFD_BASE_MASK)
            OR ucast (SHUTTLE_VFD_ICON_VOL (take_bit 4 level))) AND 0x1F) :: byte)
     = ucast (take_bit 4 level)"
  unfolding five_bits base_mask SHUTTLE_VFD_ICON_VOL_def
  by (rule bit_word_eqI) (auto simp add: bit_simps)

lemma icon_group:
  fixes x :: ulong and v :: led_brightness
  assumes "k \<le> 10"
  shows "(ucast (drop_bit k (x OR ucast (SHUTTLE_VFD_ICON_VOL v)) AND 0x1F) :: byte)
     = ucast (drop_bit k x AND 0x1F)"
  unfolding five_bits SHUTTLE_VFD_ICON_VOL_def using assms
  by - (rule bit_word_eqI, auto simp add: bit_simps)

lemma icon_group0:
  fixes x :: ulong and v :: led_brightness
  shows "(ucast ((x OR ucast (SHUTTLE_VFD_ICON_VOL v)) AND 0x1F) :: byte) = ucast (x AND 0x1F)"
  using icon_group [of 0 x v] by simp

lemma no_vol_group:
  fixes icons :: ulong
  shows "(ucast (drop_bit 15 (icons AND SHUTTLE_VFD_BASE_MASK) AND 0x1F) :: byte) = 0"
  unfolding five_bits base_mask
  by (rule bit_word_eqI) (auto simp add: bit_simps)

lemma vol_field:
  fixes level :: led_brightness
  shows "take_bit 15 (ucast (SHUTTLE_VFD_ICON_VOL (take_bit 4 level)) :: ulong) = 0"
    "drop_bit 19 (ucast (SHUTTLE_VFD_ICON_VOL (take_bit 4 level)) :: ulong) = 0"
    "drop_bit 15 (ucast (SHUTTLE_VFD_ICON_VOL (take_bit 4 level)) :: ulong)
       = ucast (take_bit 4 level)"
  unfolding SHUTTLE_VFD_ICON_VOL_def
  by (rule bit_word_eqI, auto simp add: bit_simps)+


text \<open>
  Claim C3.  A mask with the single icon bit \<open>pos\<close> (0 to 14) gives a packet whose data
  bytes hold exactly one set bit: bit \<open>pos mod 5\<close> of data byte \<open>3 - pos div 5\<close>, which is
  byte \<open>4 - pos div 5\<close> of the packet.  A volume level from 0 to 12 occupies bits 15 to
  18 of the mask only, is carried by data byte 0 alone, and leaves the three data
  bytes of the icon bits as they are without a volume level.
\<close>

theorem icon_and_volume_bit_layout:
  fixes icons :: ulong and level :: led_brightness
  assumes "pos < NUM_LEDS" and "unat level \<le> SHUTTLE_VFD_ICON_VOL_NUM"
  shows "packet (vfd_set_icons usb (vfd\<lparr>icons_mask := push_bit pos 1\<rparr>)) =
           (replicate 8 0)[0 := 0x74, 4 - pos div 5 := push_bit (pos mod 5) 1]
    \<and> take_bit 15 (ucast (SHUTTLE_VFD_ICON_VOL level) :: ulong) = 0
    \<and> drop_bit 19 (ucast (SHUTTLE_VFD_ICON_VOL level) :: ulong) = 0
    \<and> drop_bit 15 (ucast (SHUTTLE_VFD_ICON_VOL level) :: ulong) = ucast level
    \<and> packet (vfd_set_icons usb (vfd\<lparr>icons_mask := icons AND SHUTTLE_VFD_BASE_MASK\<rparr>)) ! 1 = 0
    \<and> packet (vfd_set_icons usb (vfd\<lparr>icons_mask :=
          (icons AND SHUTTLE_VFD_BASE_MASK) OR ucast (SHUTTLE_VFD_ICON_VOL level)\<rparr>)) =
        (packet (vfd_set_icons usb (vfd\<lparr>icons_mask := icons AND SHUTTLE_VFD_BASE_MASK\<rparr>)))
          [1 := ucast level]"
proof -
  note lv = level_bits [OF assms(2)]
  have v: "take_bit 15 (ucast (SHUTTLE_VFD_ICON_VOL level) :: ulong) = 0"
    "drop_bit 19 (ucast (SHUTTLE_VFD_ICON_VOL level) :: ulong) = 0"
    "drop_bit 15 (ucast (SHUTTLE_VFD_ICON_VOL level) :: ulong) = ucast level"
    using vol_field [of level] by (simp_all only: lv)
  have n: "packet (vfd_set_icons usb (vfd\<lparr>icons_mask := icons AND SHUTTLE_VFD_BASE_MASK\<rparr>)) ! 1 = 0"
    by (simp add: vfd_set_icons_packet_eq no_vol_group del: drop_bit_and)
  have "packet (vfd_set_icons usb (vfd\<lparr>icons_mask :=
          (icons AND SHUTTLE_VFD_BASE_MASK) OR ucast (SHUTTLE_VFD_ICON_VOL (take_bit 4 level))\<rparr>)) =
        (packet (vfd_set_icons usb (vfd\<lparr>icons_mask := icons AND SHUTTLE_VFD_BASE_MASK\<rparr>)))
          [1 := ucast (take_bit 4 level)]"
    by (simp add: vfd_set_icons_packet_eq vol_group icon_group icon_group0
          del: drop_bit_and drop_bit_or)
  then have c: "packet (vfd_set_icons usb (vfd\<lparr>icons_mask :=
          (icons AND SHUTTLE_VFD_BASE_MASK) OR ucast (SHUTTLE_VFD_ICON_VOL level)\<rparr>)) =
        (packet (vfd_set_icons usb (vfd\<lparr>icons_mask := icons AND SHUTTLE_VFD_BASE_MASK\<rparr>)))
          [1 := ucast level]"
    by (simp only: lv)
  from single_icon_packet [OF assms(1)] v n c show ?thesis by blast
qed

theorem icon_and_volume_bit_layout_witness:
  "(7::nat) < NUM_LEDS \<and> unat (12 :: led_brightness) \<le> SHUTTLE_VFD_ICON_VOL_NUM
    \<and> packet (vfd_set_icons usb_ok (kzalloc_vfd\<lparr>icons_mask := push_bit 7 1\<rparr>)) =
        [0x74, 0, 0, 4, 0, 0, 0, 0]
    \<and> packet (vfd_set_icons usb_ok (kzalloc_vfd\<lparr>icons_mask :=
          (0x5A5A AND SHUTTLE_VFD_BASE_MASK) OR ucast (SHUTTLE_VFD_ICON_VOL 12)\<rparr>)) =
        (packet (vfd_set_icons usb_ok
           (kzalloc_vfd\<lparr>icons_mask := 0x5A5A AND SHUTTLE_VFD_BASE_MASK\<rparr>)))[1 := 12]"
proof -
  have h: "(7::nat) < NUM_LEDS" "unat (12 :: led_brightness) \<le> SHUTTLE_VFD_ICON_VOL_NUM"
    by (simp_all add: NUM_LEDS_def SHUTTLE_VFD_ICON_VOL_NUM_def)
  note t = icon_and_volume_bit_layout [OF h, of usb_ok kzalloc_vfd "0x5A5A"]
  have r: "(replicate 8 0)[0 := 0x74, 4 - 7 div 5 := push_bit (7 mod 5) 1] =
      [0x74, 0, 0, 4, 0, 0, 0, (0::byte)]"
  proof -
    have i: "4 - 7 div 5 = (3::nat)" by simp
    have j: "push_bit (7 mod 5) 1 = (4::byte)" by simp
    show ?thesis unfolding i j by (simp add: numeral_eq_Suc)
  qed
  have u: "(ucast (12 :: led_brightness) :: byte) = 12"
    by simp
  have a: "packet (vfd_set_icons usb_ok (kzalloc_vfd\<lparr>icons_mask := push_bit 7 1\<rparr>)) =
        [0x74, 0, 0, 4, 0, 0, 0, 0]"
    using t [THEN conjunct1] by (simp only: r)
  have b: "packet (vfd_set_icons usb_ok (kzalloc_vfd\<lparr>icons_mask :=
          (0x5A5A AND SHUTTLE_VFD_BASE_MASK) OR ucast (SHUTTLE_VFD_ICON_VOL 12)\<rparr>)) =
        (packet (vfd_set_icons usb_ok
           (kzalloc_vfd\<lparr>icons_mask := 0x5A5A AND SHUTTLE_VFD_BASE_MASK\<rparr>)))[1 := 12]"
    using t [THEN conjunct2, THEN conjunct2, THEN conjunct2, THEN conjunct2, THEN conjunct2]
    by (simp only: u)
  show ?thesis
    by (intro conjI) (fact h a b)+
qed


section \<open>Text write\<close>

lemma vfd_reset_cursor_fields:
  "icons_mask (vfd_reset_cursor usb vfd e) = icons_mask vfd"
  "screen (vfd_reset_cursor usb vfd e) = screen vfd"
  "packet (vfd_reset_cursor usb vfd e) = [0x11, if e then 1 else 2, 0, 0, 0, 0, 0, 0]"
  "wire (vfd_reset_cursor usb vfd e) = wire vfd @ [packet (vfd_reset_cursor usb vfd e)]"
  "slept (vfd_reset_cursor usb vfd e) = slept vfd + SHUTTLE_VFD_SLEEP_MS"
  "errlog (vfd_reset_cursor usb vfd e) = errlog vfd @ filter (\<lambda>r. r < 0)
       [usb (length (wire vfd)) (packet (vfd_reset_cursor usb vfd e))]"
  by (cases e; simp add: vfd_reset_cursor_def memset_all_def SHUTTLE_VFD_PACKET_SIZE_def
        numeral_eq_Suc Let_def)+

lemma vfd_set_text_loop_step:
  assumes "length (packet vfd) = 8" and "p + 7 \<le> length (screen vfd)" and "i < n"
  shows "vfd_set_text_loop usb i n (p, vfd) = vfd_set_text_loop usb (Suc i) n (p + 7, chunk_sent usb p vfd)"
proof -
  obtain a pk where pk: "packet vfd = a # pk" "length pk = 7"
    using assms(1) by (cases "packet vfd") simp_all
  have l: "length (take 7 (drop p (screen vfd))) = 7"
    using assms(2) by simp
  have m: "memcpy_at ((packet vfd)[0 := 0x97]) (Suc 0) (take 7 (drop p (screen vfd))) = 0x97 # take 7 (drop p (screen vfd))"
    unfolding memcpy_at_def l pk by (simp add: pk)
  show ?thesis
    apply (subst vfd_set_text_loop.simps)
    apply (simp only: assms(3) if_True SHUTTLE_VFD_DATA_SIZE_def SHUTTLE_VFD_PACKET_SIZE_def)
    apply (simp add: m chunk_sent_def Let_def)
    done
qed

lemma vfd_set_text_loop_done: "vfd_set_text_loop usb n n (p, vfd) = (p, vfd)"
  by (simp add: vfd_set_text_loop.simps)

lemma chunk_sent_fields:
  "icons_mask (chunk_sent usb p vfd) = icons_mask vfd"
  "screen (chunk_sent usb p vfd) = screen vfd"
  "packet (chunk_sent usb p vfd) = 0x97 # take 7 (drop p (screen vfd))"
  "wire (chunk_sent usb p vfd) = wire vfd @ [0x97 # take 7 (drop p (screen vfd))]"
  "slept (chunk_sent usb p vfd) = slept vfd + SHUTTLE_VFD_SLEEP_MS"
  "errlog (chunk_sent usb p vfd) = errlog vfd @ filter (\<lambda>r. r < 0)
       [usb (length (wire vfd)) (0x97 # take 7 (drop p (screen vfd)))]"
  by (simp_all add: chunk_sent_def)

lemma vfd_set_text_width:
  assumes "wf_vfd vfd"
  shows "vfd_set_text usb vfd SHUTTLE_VFD_WIDTH = Some (text_sent usb vfd)"
proof -
  from assms have l: "length (packet vfd) = 8" "length (screen vfd) = 20"
    by (simp_all add: wf_vfd_def SHUTTLE_VFD_PACKET_SIZE_def SHUTTLE_VFD_WIDTH_def)
  have two: "(2::nat) = Suc (Suc 0)" by simp
  have loop: "vfd_set_text_loop usb 0 2 (0, vfd) = (14, chunk_sent usb 7 (chunk_sent usb 0 vfd))"
    unfolding two
    by (simp add: vfd_set_text_loop_step vfd_set_text_loop_done l chunk_sent_fields)
  have m: "memcpy_at ((replicate 8 0)[0 := 0x96]) (Suc 0) (drop 14 (screen vfd))
      = 0x96 # drop 14 (screen vfd) @ [0]"
    by (simp add: memcpy_at_def l numeral_eq_Suc)
  show ?thesis
    by (simp add: vfd_set_text_def SHUTTLE_VFD_WIDTH_def SHUTTLE_VFD_DATA_SIZE_def
      SHUTTLE_VFD_PACKET_SIZE_def l loop memset_all_def m text_sent_def chunk_sent_fields)
qed


lemma text_sent_fields:
  "icons_mask (text_sent usb vfd) = icons_mask vfd"
  "screen (text_sent usb vfd) = screen vfd"
  "packet (text_sent usb vfd) = 0x96 # take 6 (drop 14 (screen vfd)) @ [0]"
  "wire (text_sent usb vfd) = wire vfd @
     [0x97 # take 7 (screen vfd), 0x97 # take 7 (drop 7 (screen vfd)),
      0x96 # take 6 (drop 14 (screen vfd)) @ [0]]"
  "slept (text_sent usb vfd) = slept vfd + 3 * SHUTTLE_VFD_SLEEP_MS"
  by (simp_all add: text_sent_def chunk_sent_fields Let_def)

lemma length_screen_written: "length (screen_written buf) = SHUTTLE_VFD_WIDTH"
  by (simp add: screen_written_def)

lemma set_vfd_text_handler_eq:
  assumes "wf_vfd vfd"
  shows "set_vfd_text_handler usb vfd buf =
     Some (int (length buf),
           text_sent usb (vfd_reset_cursor usb (vfd\<lparr>screen := screen_written buf\<rparr>) False))"
proof -
  from assms have l: "length (screen vfd) = SHUTTLE_VFD_WIDTH"
    by (simp add: wf_vfd_def)
  have s: "(if length buf < SHUTTLE_VFD_WIDTH
           then vfd\<lparr>screen := memcpy_at (memset_all 0 SHUTTLE_VFD_WIDTH) 0
                  (take (min (length buf) SHUTTLE_VFD_WIDTH) buf)\<rparr>
           else vfd\<lparr>screen := memcpy_at (screen vfd) 0
                  (take (min (length buf) SHUTTLE_VFD_WIDTH) buf)\<rparr>)
        = vfd\<lparr>screen := screen_written buf\<rparr>"
    by (simp add: memcpy_at_def memset_all_def screen_written_def l min_def)
  have w: "wf_vfd (vfd_reset_cursor usb (vfd\<lparr>screen := screen_written buf\<rparr>) False)"
    by (simp add: wf_vfd_def vfd_reset_cursor_fields length_screen_written
          SHUTTLE_VFD_PACKET_SIZE_def)
  have "set_vfd_text_handler usb vfd buf =
      map_option (\<lambda>v. (int (length buf), v))
        (vfd_set_text usb (vfd_reset_cursor usb (vfd\<lparr>screen := screen_written buf\<rparr>) False)
           SHUTTLE_VFD_WIDTH)"
    unfolding set_vfd_text_handler_def Let_def s [symmetric]
    by (simp add: if_distrib [of "\<lambda>v. vfd_reset_cursor usb v False"] cong: if_cong)
  then show ?thesis
    by (simp add: vfd_set_text_width [OF w])
qed


lemma wf_kzalloc_vfd: "wf_vfd kzalloc_vfd"
  by (simp add: wf_vfd_def kzalloc_vfd_def)

lemma bytes_of_test: "bytes_of ''test 123'' = [0x74, 0x65, 0x73, 0x74, 0x20, 0x31, 0x32, 0x33]"
  by (simp add: bytes_of_def)

text \<open>
  Claim C4.  A text write hands the transport four packets in this order: the clear
  packet \<open>0x11\<close> (command nibble 1, length nibble 1) with data byte 2, the cursor reset
  that keeps the icons; then three text packets with command nibble 9 and lengths 7,
  7 and 6, carrying bytes 0-6, 7-13 and 14-19 of the screen buffer, the last one
  padded with a zero byte to 7 data bytes.
\<close>

theorem text_write_packet_sequence:
  assumes "wf_vfd vfd"
  shows "\<exists>vfd'. set_vfd_text_handler usb vfd buf = Some (int (length buf), vfd')
    \<and> length (screen vfd') = SHUTTLE_VFD_WIDTH
    \<and> wire vfd' = wire vfd @
         [[push_bit 4 1 + 1, 2, 0, 0, 0, 0, 0, 0],
          (push_bit 4 9 + 7) # take 7 (screen vfd'),
          (push_bit 4 9 + 7) # take 7 (drop 7 (screen vfd')),
          (push_bit 4 9 + 6) # take 6 (drop 14 (screen vfd')) @ [0]]"
  by (simp add: set_vfd_text_handler_eq [OF assms] text_sent_fields vfd_reset_cursor_fields
        length_screen_written)

theorem text_write_packet_sequence_witness:
  "wf_vfd kzalloc_vfd \<and>
   (\<exists>vfd'. set_vfd_text_handler usb_ok kzalloc_vfd (bytes_of ''test 123'') = Some (8, vfd')
      \<and> wire vfd' =
         [[0x11, 2, 0, 0, 0, 0, 0, 0],
          0x97 # take 7 (screen vfd'),
          0x97 # take 7 (drop 7 (screen vfd')),
          0x96 # take 6 (drop 14 (screen vfd')) @ [0]])"
proof -
  have w: "wire kzalloc_vfd = []" "int (length (bytes_of ''test 123'')) = 8"
    by (simp_all add: kzalloc_vfd_def bytes_of_test)
  from text_write_packet_sequence [OF wf_kzalloc_vfd, of usb_ok "bytes_of ''test 123''"]
    wf_kzalloc_vfd
  show ?thesis unfolding w by auto
qed

text \<open>
  Claim C5.  After a text write of \<open>count\<close> bytes the screen buffer is 20 bytes long:
  the first \<open>min count 20\<close> bytes written, left-justified, followed by zero bytes.
  Writing the 8 bytes of "test 123" leaves "test 123" followed by 12 zero bytes.
\<close>

theorem text_write_screen:
  assumes "wf_vfd vfd"
  shows "(\<exists>vfd'. set_vfd_text_handler usb vfd buf = Some (int (length buf), vfd')
      \<and> length (screen vfd') = SHUTTLE_VFD_WIDTH
      \<and> screen vfd' = take (min (length buf) SHUTTLE_VFD_WIDTH) buf
           @ replicate (SHUTTLE_VFD_WIDTH - length buf) 0)
    \<and> (\<exists>vfd'. set_vfd_text_handler usb vfd (bytes_of ''test 123'') = Some (8, vfd')
      \<and> screen vfd' = bytes_of ''test 123'' @ replicate 12 0)"
proof -
  have t: "take (min (length buf) SHUTTLE_VFD_WIDTH) buf = take SHUTTLE_VFD_WIDTH buf"
    by (simp add: min_def)
  have e: "screen_written (bytes_of ''test 123'') = bytes_of ''test 123'' @ replicate 12 0"
    by (simp add: screen_written_def bytes_of_test SHUTTLE_VFD_WIDTH_def)
  have n: "int (length (bytes_of ''test 123'')) = 8"
    by (simp add: bytes_of_test)
  show ?thesis
    unfolding t set_vfd_text_handler_eq [OF assms] n
    by (simp add: text_sent_fields vfd_reset_cursor_fields length_screen_written e)
      (simp add: screen_written_def)
qed

theorem text_write_screen_witness:
  "wf_vfd kzalloc_vfd \<and>
   (\<exists>vfd'. set_vfd_text_handler usb_ok kzalloc_vfd (bytes_of ''test 123'') = Some (8, vfd')
      \<and> screen vfd' =
        [0x74, 0x65, 0x73, 0x74, 0x20, 0x31, 0x32, 0x33, 0, 0, 0, 0, 0, 0, 0, 0, 0, 0, 0, 0])"
proof -
  have r: "bytes_of ''test 123'' @ replicate 12 0 =
      [0x74, 0x65, 0x73, 0x74, 0x20, 0x31, 0x32, 0x33, 0, 0, 0, 0, 0, 0, 0, 0, 0, 0, 0, 0]"
    by (simp add: bytes_of_test numeral_eq_Suc)
  from text_write_screen [OF wf_kzalloc_vfd, of usb_ok, THEN conjunct2]
  show ?thesis unfolding r using wf_kzalloc_vfd by simp
qed


section \<open>Text read\<close>

lemma trim_loop_numeral:
  "trim_loop buf (numeral k) =
     (if buf ! pred_numeral k = 0 \<or> buf ! pred_numeral k = 0x0A
      then trim_loop buf (pred_numeral k) else Inr (numeral k))"
  by (simp add: numeral_eq_Suc)

lemma trim_loop_all_blank:
  assumes "\<forall>i<n. buf ! i = 0 \<or> buf ! i = 0x0A"
  shows "trim_loop buf n = Inl (Out_Of_Bounds (- 1))"
  using assms by (induction n) simp_all

lemma trim_loop_Inr:
  assumes "trim_loop buf n = Inr sz"
  shows "0 < sz \<and> sz \<le> n \<and> buf ! (sz - 1) \<noteq> 0 \<and> buf ! (sz - 1) \<noteq> 0x0A
    \<and> (\<forall>i. sz \<le> i \<and> i < n \<longrightarrow> buf ! i = 0 \<or> buf ! i = 0x0A)"
  using assms
proof (induction n)
  case 0
  then show ?case by simp
next
  case (Suc n)
  show ?case
  proof (cases "buf ! n = 0 \<or> buf ! n = 0x0A")
    case True
    with Suc.prems have "trim_loop buf n = Inr sz" by simp
    from Suc.IH [OF this] True show ?thesis
      by (auto simp: less_Suc_eq)
  next
    case False
    with Suc.prems have "sz = Suc n" by auto
    with False show ?thesis by auto
  qed
qed

lemma trim_loop_some_text:
  assumes "k < n" and "buf ! k \<noteq> 0" and "buf ! k \<noteq> 0x0A"
  shows "\<exists>sz. trim_loop buf n = Inr sz"
  using assms
proof (induction n)
  case 0
  then show ?case by simp
next
  case (Suc n)
  then show ?case by (cases "k = n") (auto simp: less_Suc_eq)
qed

text \<open>
  When the screen holds a byte that is neither NUL nor a newline, the read returns the
  buffer up to its last such byte, followed by one newline.
\<close>

lemma get_vfd_text_handler_trimmed:
  assumes "wf_vfd vfd" and "k < SHUTTLE_VFD_WIDTH" and "screen vfd ! k \<noteq> 0" and "screen vfd ! k \<noteq> 0x0A"
  shows "\<exists>sz. get_vfd_text_handler vfd = Inr (int sz + 1, take sz (screen vfd) @ [0x0A])
    \<and> 0 < sz \<and> sz \<le> SHUTTLE_VFD_WIDTH
    \<and> screen vfd ! (sz - 1) \<noteq> 0 \<and> screen vfd ! (sz - 1) \<noteq> 0x0A
    \<and> (\<forall>i. sz \<le> i \<and> i < SHUTTLE_VFD_WIDTH \<longrightarrow> screen vfd ! i = 0 \<or> screen vfd ! i = 0x0A)"
proof -
  from assms(1) have t: "take SHUTTLE_VFD_WIDTH (screen vfd) = screen vfd"
    by (simp add: wf_vfd_def)
  from trim_loop_some_text [OF assms(2-4)] obtain sz
    where sz: "trim_loop (screen vfd) SHUTTLE_VFD_WIDTH = Inr sz" by blast
  from trim_loop_Inr [OF sz] sz show ?thesis
    by (simp add: get_vfd_text_handler_def t)
qed

text \<open>
  When every byte of the screen is NUL or a newline, the loop walks \<open>sz\<close> down to 0
  and reads \<^verbatim>\<open>buf[-1]\<close>.
\<close>

lemma get_vfd_text_handler_blank:
  assumes "wf_vfd vfd" and "\<forall>b \<in> set (screen vfd). b = 0 \<or> b = 0x0A"
  shows "get_vfd_text_handler vfd = Inl (Out_Of_Bounds (- 1))"
proof -
  from assms(1) have t: "take SHUTTLE_VFD_WIDTH (screen vfd) = screen vfd"
    and l: "length (screen vfd) = SHUTTLE_VFD_WIDTH"
    by (simp_all add: wf_vfd_def)
  from assms(2) l have "\<forall>i<SHUTTLE_VFD_WIDTH. screen vfd ! i = 0 \<or> screen vfd ! i = 0x0A"
    by simp
  from trim_loop_all_blank [OF this] show ?thesis
    by (simp add: get_vfd_text_handler_def t)
qed

lemma read_after_write_test:
  "\<exists>vfd'. set_vfd_text_handler usb_ok kzalloc_vfd (bytes_of ''test 123'') = Some (8, vfd')
     \<and> get_vfd_text_handler vfd' = Inr (9, bytes_of ''test 123'' @ [0x0A])"
proof -
  have s: "screen_written (bytes_of ''test 123'') = bytes_of ''test 123'' @ replicate 12 0"
    by (simp add: screen_written_def bytes_of_test SHUTTLE_VFD_WIDTH_def)
  have g: "get_vfd_text_handler (text_sent usb_ok (vfd_reset_cursor usb_ok
      (kzalloc_vfd\<lparr>screen := screen_written (bytes_of ''test 123'')\<rparr>) False))
      = Inr (9, bytes_of ''test 123'' @ [0x0A])"
    unfolding get_vfd_text_handler_def text_sent_fields vfd_reset_cursor_fields s
    by (simp add: bytes_of_test SHUTTLE_VFD_WIDTH_def kzalloc_vfd_def trim_loop_numeral)
  show ?thesis
    unfolding set_vfd_text_handler_eq [OF wf_kzalloc_vfd] using g
    by (simp add: bytes_of_test)
qed

text \<open>
  Claim C10.  The claim is that the trim loop of the text read only reads indices 0 to
  19 and returns a size of at least 1.  On the all-NUL screen of a device that has
  just been attached the loop reaches \<open>sz = 0\<close> and reads index \<open>-1\<close>.
\<close>

theorem read_blank_screen_out_of_bounds:
  "shuttle_vfd_probe usb_ok SHUTTLE_VFD_INTERFACE True (\<lambda>i. 0) 0
       = (0, Some (vfd_reset_cursor usb_ok kzalloc_vfd True))
   \<and> get_vfd_text_handler (vfd_reset_cursor usb_ok kzalloc_vfd True) = Inl (Out_Of_Bounds (- 1))"
proof -
  have "find (\<lambda>i. (0::int) < 0) [0..<NUM_LEDS] = None"
    by (simp add: find_None_iff)
  then have p: "shuttle_vfd_probe usb_ok SHUTTLE_VFD_INTERFACE True (\<lambda>i. 0) 0
       = (0, Some (vfd_reset_cursor usb_ok kzalloc_vfd True))"
    by (simp add: shuttle_vfd_probe_def)
  have w: "wf_vfd (vfd_reset_cursor usb_ok kzalloc_vfd True)"
    by (simp add: wf_vfd_def vfd_reset_cursor_fields kzalloc_vfd_def SHUTTLE_VFD_PACKET_SIZE_def)
  have b: "\<forall>b \<in> set (screen (vfd_reset_cursor usb_ok kzalloc_vfd True)). b = 0 \<or> b = 0x0A"
    by (simp add: vfd_reset_cursor_fields kzalloc_vfd_def)
  from p get_vfd_text_handler_blank [OF w b] show ?thesis by simp
qed

text \<open>
  Claim C6.  The claim is that for every screen the text read returns the buffer with
  its trailing NUL and newline bytes trimmed and one newline appended.  After a write
  of a single newline (an empty line) the trimmed buffer is empty and the read should
  return one newline; the loop instead leaves the buffer at index \<open>-1\<close>.
\<close>

theorem read_after_newline_write_out_of_bounds:
  "map_option fst (set_vfd_text_handler usb_ok kzalloc_vfd [0x0A]) = Some 1
   \<and> map_option (get_vfd_text_handler \<circ> snd) (set_vfd_text_handler usb_ok kzalloc_vfd [0x0A])
       = Some (Inl (Out_Of_Bounds (- 1)))"
proof -
  let ?v = "text_sent usb_ok (vfd_reset_cursor usb_ok (kzalloc_vfd\<lparr>screen := screen_written [0x0A]\<rparr>) False)"
  have w: "wf_vfd ?v"
    by (simp add: wf_vfd_def text_sent_fields vfd_reset_cursor_fields length_screen_written
          SHUTTLE_VFD_PACKET_SIZE_def SHUTTLE_VFD_WIDTH_def)
  have b: "\<forall>b \<in> set (screen ?v). b = 0 \<or> b = 0x0A"
    by (auto simp add: text_sent_fields vfd_reset_cursor_fields screen_written_def
          SHUTTLE_VFD_WIDTH_def)
  from get_vfd_text_handler_blank [OF w b] show ?thesis
    by (simp add: set_vfd_text_handler_eq [OF wf_kzalloc_vfd])
qed


section \<open>Light endpoints: the mask\<close>

lemma vfd_led_generic_set_mask:
  "icons_mask (vfd_led_generic_set usb vfd led val) =
     (if val \<noteq> LED_OFF then icons_mask vfd OR led_mask led
      else icons_mask vfd AND NOT (led_mask led))"
  by (simp add: vfd_led_generic_set_def vfd_set_icons_fields)

lemma vfd_led_volume_set_mask:
  "icons_mask (vfd_led_volume_set usb vfd led val) =
     (icons_mask vfd AND SHUTTLE_VFD_BASE_MASK) OR ucast (SHUTTLE_VFD_ICON_VOL val)"
  by (simp add: vfd_led_volume_set_def vfd_set_icons_fields Let_def LED_OFF_def
        SHUTTLE_VFD_ICON_VOL_def)

lemma vol_field_any:
  fixes m :: ulong and val :: led_brightness
  shows "drop_bit 15 ((m AND SHUTTLE_VFD_BASE_MASK) OR ucast (SHUTTLE_VFD_ICON_VOL val))
      = ucast (take_bit 17 val)"
    and "take_bit 15 ((m AND SHUTTLE_VFD_BASE_MASK) OR ucast (SHUTTLE_VFD_ICON_VOL val))
      = take_bit 15 m"
  unfolding base_mask SHUTTLE_VFD_ICON_VOL_def
  by (rule bit_word_eqI, auto simp add: bit_simps)+

lemma icon_field:
  fixes m :: ulong
  assumes "pos < NUM_LEDS"
  shows "drop_bit 15 (m OR led_mask (icon_led pos)) = drop_bit 15 m"
    and "drop_bit 15 (m AND NOT (led_mask (icon_led pos))) = drop_bit 15 m"
    and "bit (m OR led_mask (icon_led pos)) n \<longleftrightarrow> n = pos \<or> bit m n"
    and "bit (m AND NOT (led_mask (icon_led pos))) n \<longleftrightarrow> n \<noteq> pos \<and> bit m n"
proof -
  from assms have p: "pos < 15" by (simp add: NUM_LEDS_def)
  show "drop_bit 15 (m OR led_mask (icon_led pos)) = drop_bit 15 m"
    using p by (intro bit_word_eqI) (auto simp add: icon_led_def bit_simps dest: bit_imp_le_length)
  show "drop_bit 15 (m AND NOT (led_mask (icon_led pos))) = drop_bit 15 m"
    using p by (intro bit_word_eqI) (auto simp add: icon_led_def bit_simps dest: bit_imp_le_length)
  show "bit (m OR led_mask (icon_led pos)) n \<longleftrightarrow> n = pos \<or> bit m n"
    using p by (auto simp add: icon_led_def bit_simps)
  show "bit (m AND NOT (led_mask (icon_led pos))) n \<longleftrightarrow> n \<noteq> pos \<and> bit m n"
    using p by (auto simp add: icon_led_def bit_simps dest: bit_imp_le_length)
qed


lemma level_field:
  fixes level :: led_brightness
  assumes "unat level \<le> SHUTTLE_VFD_ICON_VOL_NUM"
  shows "take_bit 17 level = level" and "unat (ucast level :: ulong) \<le> SHUTTLE_VFD_ICON_VOL_NUM"
    and "drop_bit 4 (ucast level :: ulong) = 0"
proof -
  note l = level_bits [OF assms]
  have "take_bit 17 (take_bit 4 level) = take_bit 4 level"
    by simp
  then show "take_bit 17 level = level"
    by (simp only: l)
  show "unat (ucast level :: ulong) \<le> SHUTTLE_VFD_ICON_VOL_NUM"
  proof -
    from assms have "unat level < 2 ^ 64"
      by (simp add: SHUTTLE_VFD_ICON_VOL_NUM_def)
    then have "unat (ucast level :: ulong) = unat level"
      by (simp add: unsigned_ucast_eq take_bit_nat_eq_self)
    with assms show ?thesis by simp
  qed
  have "drop_bit 4 (ucast (take_bit 4 level) :: ulong) = 0"
    by (rule bit_word_eqI) (auto simp add: bit_simps)
  then show "drop_bit 4 (ucast level :: ulong) = 0"
    by (simp only: l)
qed

text \<open>
  Claim C7 says that a brightness outside the domain of the endpoint is clamped.  The
  binary icons do so, the volume endpoint does not: with the value 13 the volume field
  of the mask holds 13.
\<close>

theorem volume_not_clamped_counterexample:
  "\<not> unat (drop_bit 15 (icons_mask (vfd_led_volume_set usb_ok kzalloc_vfd volume_led 13)))
       \<le> SHUTTLE_VFD_ICON_VOL_NUM"
  by (simp add: vfd_led_volume_set_mask kzalloc_vfd_def SHUTTLE_VFD_ICON_VOL_def
        SHUTTLE_VFD_BASE_MASK_def SHUTTLE_VFD_ICON_VOL_NUM_def)

text \<open>
  Claim C7, amended.  On a binary icon every non-zero brightness (15, say) does what
  the brightness 1 does: the bit of the icon is set and no other bit of the mask
  changes.  The volume endpoint does not clamp: it keeps the icon bits and writes the
  value shifted left by 15 above them, whatever the value; the volume field is within
  0 to 12, in bits 15 to 18 only, when the value given is at most 12.
\<close>

theorem brightness_outside_domain:
  assumes "pos < NUM_LEDS" and "val \<noteq> LED_OFF" and "unat level \<le> SHUTTLE_VFD_ICON_VOL_NUM"
  shows "vfd_led_generic_set usb vfd (icon_led pos) val
           = vfd_led_generic_set usb vfd (icon_led pos) LED_ON
    \<and> (\<forall>n. bit (icons_mask (vfd_led_generic_set usb vfd (icon_led pos) val)) n
           = (n = pos \<or> bit (icons_mask vfd) n))
    \<and> icons_mask (vfd_led_volume_set usb vfd volume_led v)
           = (icons_mask vfd AND SHUTTLE_VFD_BASE_MASK) OR ucast (SHUTTLE_VFD_ICON_VOL v)
    \<and> drop_bit 15 (icons_mask (vfd_led_volume_set usb vfd volume_led level)) = ucast level
    \<and> unat (drop_bit 15 (icons_mask (vfd_led_volume_set usb vfd volume_led level)))
           \<le> SHUTTLE_VFD_ICON_VOL_NUM
    \<and> drop_bit 19 (icons_mask (vfd_led_volume_set usb vfd volume_led level)) = 0"
proof -
  have a: "vfd_led_generic_set usb vfd (icon_led pos) val
           = vfd_led_generic_set usb vfd (icon_led pos) LED_ON"
    using assms(2) by (simp add: vfd_led_generic_set_def LED_ON_def LED_OFF_def)
  have b: "\<forall>n. bit (icons_mask (vfd_led_generic_set usb vfd (icon_led pos) val)) n
           = (n = pos \<or> bit (icons_mask vfd) n)"
    using assms(2) by (simp add: vfd_led_generic_set_mask icon_field [OF assms(1)])
  note c = vfd_led_volume_set_mask [of usb vfd volume_led v]
  note lf = level_field [OF assms(3)]
  have d: "drop_bit 15 (icons_mask (vfd_led_volume_set usb vfd volume_led level)) = ucast level"
    by (simp only: vfd_led_volume_set_mask vol_field_any lf)
  have e: "unat (drop_bit 15 (icons_mask (vfd_led_volume_set usb vfd volume_led level)))
           \<le> SHUTTLE_VFD_ICON_VOL_NUM"
    by (simp only: d lf)
  have "drop_bit 19 (icons_mask (vfd_led_volume_set usb vfd volume_led level))
      = drop_bit 4 (drop_bit 15 (icons_mask (vfd_led_volume_set usb vfd volume_led level)))"
    by (simp only: drop_bit_drop_bit) simp
  then have f: "drop_bit 19 (icons_mask (vfd_led_volume_set usb vfd volume_led level)) = 0"
    by (simp only: d lf)
  from a b c d e f show ?thesis by blast
qed

theorem brightness_outside_domain_witness:
  "(3::nat) < NUM_LEDS \<and> (15::led_brightness) \<noteq> LED_OFF
    \<and> unat (12::led_brightness) \<le> SHUTTLE_VFD_ICON_VOL_NUM
    \<and> vfd_led_generic_set usb_ok kzalloc_vfd (icon_led 3) 15
           = vfd_led_generic_set usb_ok kzalloc_vfd (icon_led 3) LED_ON
    \<and> icons_mask (vfd_led_volume_set usb_ok kzalloc_vfd volume_led 13)
           = (icons_mask kzalloc_vfd AND SHUTTLE_VFD_BASE_MASK) OR ucast (SHUTTLE_VFD_ICON_VOL 13)
    \<and> unat (drop_bit 15 (icons_mask (vfd_led_volume_set usb_ok kzalloc_vfd volume_led 12)))
           \<le> SHUTTLE_VFD_ICON_VOL_NUM"
proof -
  have h: "(3::nat) < NUM_LEDS" "(15::led_brightness) \<noteq> LED_OFF"
    "unat (12::led_brightness) \<le> SHUTTLE_VFD_ICON_VOL_NUM"
    by (simp_all add: NUM_LEDS_def LED_OFF_def SHUTTLE_VFD_ICON_VOL_NUM_def)
  note t = brightness_outside_domain [OF h, of usb_ok kzalloc_vfd 13]
  show ?thesis
    by (intro conjI h t [THEN conjunct1] t [THEN conjunct2, THEN conjunct2, THEN conjunct1]
      t [THEN conjunct2, THEN conjunct2, THEN conjunct2, THEN conjunct2, THEN conjunct1])
qed


text \<open>
  Claim C8.  Setting or clearing a binary icon (bit 0 to 14) leaves bits 15 and above
  of the mask as they were.  Setting the volume leaves bits 0 to 14 as they were and
  replaces bits 15 and above: the new field depends on the value alone, and with the
  value 0 the mask is the old one with exactly the bits from 15 up cleared.
\<close>

theorem icon_and_volume_frames:
  assumes "pos < NUM_LEDS"
  shows "drop_bit 15 (icons_mask (vfd_led_generic_set usb vfd (icon_led pos) val))
           = drop_bit 15 (icons_mask vfd)
    \<and> take_bit 15 (icons_mask (vfd_led_volume_set usb vfd led v)) = take_bit 15 (icons_mask vfd)
    \<and> drop_bit 15 (icons_mask (vfd_led_volume_set usb vfd led v)) = ucast (take_bit 17 v)
    \<and> icons_mask (vfd_led_volume_set usb vfd led LED_OFF) = take_bit 15 (icons_mask vfd)"
proof -
  have a: "drop_bit 15 (icons_mask (vfd_led_generic_set usb vfd (icon_led pos) val))
           = drop_bit 15 (icons_mask vfd)"
    by (simp only: vfd_led_generic_set_mask icon_field [OF assms] if_distrib [of "drop_bit 15"]
          if_cancel)
  have b: "take_bit 15 (icons_mask (vfd_led_volume_set usb vfd led v)) = take_bit 15 (icons_mask vfd)"
    by (simp only: vfd_led_volume_set_mask vol_field_any)
  have c: "drop_bit 15 (icons_mask (vfd_led_volume_set usb vfd led v)) = ucast (take_bit 17 v)"
    by (simp only: vfd_led_volume_set_mask vol_field_any)
  have d: "icons_mask (vfd_led_volume_set usb vfd led LED_OFF) = take_bit 15 (icons_mask vfd)"
    by (simp add: vfd_led_volume_set_def vfd_set_icons_fields base_mask take_bit_eq_mask)
  from a b c d show ?thesis by blast
qed

theorem icon_and_volume_frames_witness:
  "(14::nat) < NUM_LEDS
    \<and> drop_bit 15 (icons_mask (vfd_led_generic_set usb_ok (kzalloc_vfd\<lparr>icons_mask := 0x6FFFF\<rparr>)
          (icon_led 14) LED_OFF)) = 13
    \<and> take_bit 15 (icons_mask (vfd_led_volume_set usb_ok (kzalloc_vfd\<lparr>icons_mask := 0x6FFFF\<rparr>)
          volume_led 5)) = 0x7FFF"
proof -
  have h: "(14::nat) < NUM_LEDS"
    by (simp add: NUM_LEDS_def)
  have m: "icons_mask (kzalloc_vfd\<lparr>icons_mask := 0x6FFFF\<rparr>) = 0x6FFFF"
    by simp
  have e: "drop_bit 15 (0x6FFFF :: ulong) = 13" "take_bit 15 (0x6FFFF :: ulong) = 0x7FFF"
    by simp_all
  note t = icon_and_volume_frames [OF h, of usb_ok "kzalloc_vfd\<lparr>icons_mask := 0x6FFFF\<rparr>"
      LED_OFF volume_led 5, unfolded m e]
  show ?thesis
    by (intro conjI h t [THEN conjunct1] t [THEN conjunct2, THEN conjunct1])
qed

section \<open>Transport failures\<close>

lemma vfd_send_packet_modulo_errlog:
  "(snd (vfd_send_packet usb vfd pkt))\<lparr>errlog := []\<rparr>
     = (snd (vfd_send_packet usb' vfd pkt))\<lparr>errlog := []\<rparr>"
  by (simp add: vfd_send_packet_def Let_def)

lemma vfd_set_icons_modulo_errlog:
  "(vfd_set_icons usb vfd)\<lparr>errlog := []\<rparr> = (vfd_set_icons usb' vfd)\<lparr>errlog := []\<rparr>"
  by (simp add: vfd_set_icons_def vfd_send_packet_modulo_errlog [of usb _ _ usb'])

lemma vfd_reset_cursor_modulo_errlog:
  "(vfd_reset_cursor usb vfd e)\<lparr>errlog := []\<rparr> = (vfd_reset_cursor usb' vfd e)\<lparr>errlog := []\<rparr>"
  by (simp add: vfd_reset_cursor_def Let_def vfd_send_packet_modulo_errlog [of usb _ _ usb'])


lemma text_sent_errlog:
  "errlog (text_sent usb vfd) = errlog vfd @ filter (\<lambda>r. r < 0)
     [usb (length (wire vfd)) (0x97 # take 7 (screen vfd)),
      usb (length (wire vfd) + 1) (0x97 # take 7 (drop 7 (screen vfd))),
      usb (length (wire vfd) + 2) (0x96 # take 6 (drop 14 (screen vfd)) @ [0])]"
  by (simp add: text_sent_def chunk_sent_fields Let_def)

lemma text_write_modulo_errlog:
  "(text_sent usb (vfd_reset_cursor usb vfd False))\<lparr>errlog := []\<rparr>
     = (text_sent usb' (vfd_reset_cursor usb' vfd False))\<lparr>errlog := []\<rparr>"
  by (rule shuttle_vfd.equality) (simp_all add: text_sent_fields vfd_reset_cursor_fields)

text \<open>
  Claim C9 says that a failed send is surfaced to the caller as a failure of the
  operation.  With every transfer failing, the text write of the 8 bytes "test 123"
  still returns 8, the value of a successful write, after logging four errors.
\<close>

theorem transport_failure_not_surfaced_counterexample:
  "map_option fst (set_vfd_text_handler usb_gone kzalloc_vfd (bytes_of ''test 123'')) = Some 8
   \<and> map_option (errlog \<circ> snd) (set_vfd_text_handler usb_gone kzalloc_vfd (bytes_of ''test 123''))
       = Some [- 19, - 19, - 19, - 19]"
  unfolding set_vfd_text_handler_eq [OF wf_kzalloc_vfd]
  by (simp add: text_sent_errlog vfd_reset_cursor_fields bytes_of_test usb_gone_def ENODEV_def
        kzalloc_vfd_def)

text \<open>
  Claim C9, amended.  \<^verbatim>\<open>vfd_send_packet\<close> returns the result of the transfer, logs it
  when it is negative and attempts the transfer once.  Its callers drop the result:
  the text write returns \<open>count\<close> whatever the transport does, and the state after a
  text write or a brightness change with a failing transport equals, up to the error
  log, the state after the same operation with another transport: the same packets
  are attempted, and mask, packet and screen buffers are not rolled back.
\<close>

theorem transport_failure_handling:
  assumes "wf_vfd vfd"
  shows "fst (vfd_send_packet usb vfd None) = usb (length (wire vfd)) (packet vfd)
    \<and> errlog (snd (vfd_send_packet usb vfd None))
         = errlog vfd @ filter (\<lambda>r. r < 0) [usb (length (wire vfd)) (packet vfd)]
    \<and> wire (snd (vfd_send_packet usb vfd None)) = wire vfd @ [packet vfd]
    \<and> (snd (vfd_send_packet usb vfd None))\<lparr>errlog := []\<rparr>
         = (snd (vfd_send_packet usb' vfd None))\<lparr>errlog := []\<rparr>
    \<and> map_option fst (set_vfd_text_handler usb vfd buf) = Some (int (length buf))
    \<and> map_option (\<lambda>r. (snd r)\<lparr>errlog := []\<rparr>) (set_vfd_text_handler usb vfd buf)
         = map_option (\<lambda>r. (snd r)\<lparr>errlog := []\<rparr>) (set_vfd_text_handler usb' vfd buf)
    \<and> (vfd_led_generic_set usb vfd led val)\<lparr>errlog := []\<rparr>
         = (vfd_led_generic_set usb' vfd led val)\<lparr>errlog := []\<rparr>
    \<and> (vfd_led_volume_set usb vfd led val)\<lparr>errlog := []\<rparr>
         = (vfd_led_volume_set usb' vfd led val)\<lparr>errlog := []\<rparr>"
proof -
  have a: "fst (vfd_send_packet usb vfd None) = usb (length (wire vfd)) (packet vfd)"
    "errlog (snd (vfd_send_packet usb vfd None))
         = errlog vfd @ filter (\<lambda>r. r < 0) [usb (length (wire vfd)) (packet vfd)]"
    "wire (snd (vfd_send_packet usb vfd None)) = wire vfd @ [packet vfd]"
    by simp_all
  note b = vfd_send_packet_modulo_errlog [of usb vfd None usb']
  have c: "map_option fst (set_vfd_text_handler usb vfd buf) = Some (int (length buf))"
    by (simp add: set_vfd_text_handler_eq [OF assms])
  have d: "map_option (\<lambda>r. (snd r)\<lparr>errlog := []\<rparr>) (set_vfd_text_handler usb vfd buf)
         = map_option (\<lambda>r. (snd r)\<lparr>errlog := []\<rparr>) (set_vfd_text_handler usb' vfd buf)"
    by (simp add: set_vfd_text_handler_eq [OF assms] text_write_modulo_errlog [of usb _ usb'])
  have e: "(vfd_led_generic_set usb vfd led val)\<lparr>errlog := []\<rparr>
         = (vfd_led_generic_set usb' vfd led val)\<lparr>errlog := []\<rparr>"
    by (simp add: vfd_led_generic_set_def vfd_set_icons_modulo_errlog [of usb _ usb'])
  have f: "(vfd_led_volume_set usb vfd led val)\<lparr>errlog := []\<rparr>
         = (vfd_led_volume_set usb' vfd led val)\<lparr>errlog := []\<rparr>"
    by (simp add: vfd_led_volume_set_def Let_def vfd_set_icons_modulo_errlog [of usb _ usb'])
  from a b c d e f show ?thesis by blast
qed

theorem transport_failure_handling_witness:
  "wf_vfd kzalloc_vfd
    \<and> fst (vfd_send_packet usb_gone kzalloc_vfd None) = - 19
    \<and> errlog (snd (vfd_send_packet usb_gone kzalloc_vfd None)) = [- 19]
    \<and> map_option fst (set_vfd_text_handler usb_gone kzalloc_vfd (bytes_of ''test 123'')) = Some 8
    \<and> (vfd_led_generic_set usb_gone kzalloc_vfd (icon_led 6) LED_ON)\<lparr>errlog := []\<rparr>
         = (vfd_led_generic_set usb_ok kzalloc_vfd (icon_led 6) LED_ON)\<lparr>errlog := []\<rparr>"
proof -
  note t = transport_failure_handling [OF wf_kzalloc_vfd, of usb_gone usb_ok
      "bytes_of ''test 123''" "icon_led 6" LED_ON]
  have g: "usb_gone (length (wire kzalloc_vfd)) (packet kzalloc_vfd) = - 19"
    by (simp add: usb_gone_def ENODEV_def)
  have e: "errlog kzalloc_vfd = []" "int (length (bytes_of ''test 123'')) = 8"
    by (simp_all add: kzalloc_vfd_def bytes_of_test)
  from t have 1: "fst (vfd_send_packet usb_gone kzalloc_vfd None) = - 19"
    unfolding g by (rule conjunct1)
  have 2: "errlog (snd (vfd_send_packet usb_gone kzalloc_vfd None)) = [- 19]"
    using t [THEN conjunct2, THEN conjunct1] by (simp add: g e)
  from t have 3: "map_option fst (set_vfd_text_handler usb_gone kzalloc_vfd (bytes_of ''test 123''))
      = Some 8"
    unfolding e by blast
  from t have 4: "(vfd_led_generic_set usb_gone kzalloc_vfd (icon_led 6) LED_ON)\<lparr>errlog := []\<rparr>
         = (vfd_led_generic_set usb_ok kzalloc_vfd (icon_led 6) LED_ON)\<lparr>errlog := []\<rparr>"
    by blast
  from wf_kzalloc_vfd 1 2 3 4 show ?thesis by (intro conjI)
qed


section \<open>Concurrent brightness changes\<close>

lemma step_simps:
  "step usb t \<lparr>dev = v, vfd_mutex = mu, threads = ths\<rparr> =
     (if t < length ths then
        (case todo (ths ! t) of
           [] \<Rightarrow> None
         | c # cs \<Rightarrow>
             (case exec usb t c (v, mu, result (ths ! t)) of
                None \<Rightarrow> None
              | Some (v', mu', r) \<Rightarrow>
                  Some \<lparr>dev = v', vfd_mutex = mu', threads = ths[t := \<lparr>todo = cs, result = r\<rparr>]\<rparr>))
      else None)"
  by (simp add: step_def split: list.split option.split)

lemma icons_packet_never_zero:
  "packet (vfd_set_icons usb vfd) \<noteq> [0, 0, 0, 0, 0, 0, 0, 0]"
  by (simp add: vfd_set_icons_packet_eq)

text \<open>
  Claim C1.  The claim is that the change of the mask, the building of the packet and
  the send are one critical section, so that concurrent brightness changes never put
  a packet on the transport that mixes two operations.  In the source the mutex is
  taken in \<^verbatim>\<open>vfd_send_packet\<close> only, after the mask is changed and the shared packet
  buffer is filled.  Two calls on a freshly attached device, thread 0 switching on
  "tv" and thread 1 switching on "cd": thread 0 changes the mask and builds its packet,
  thread 1 changes the mask and clears the packet buffer, then thread 0 takes the mutex
  and sends.  The packet on the transport after the clear packet of the attach is all
  zero: command nibble 0, no packet of the protocol.
\<close>

theorem concurrent_icons_malformed_packet:
  "map_option (wire \<circ> dev)
     (run usb_ok [0, 0, 0, 0, 0, 0, 0, 1, 1, 0, 0, 0, 0, 0, 1, 1, 1, 1, 1, 1, 1, 1, 1, 1]
        (start (vfd_reset_cursor usb_ok kzalloc_vfd True)
           [vfd_led_generic_set_stmts (icon_led 0) LED_ON,
            vfd_led_generic_set_stmts (icon_led 1) LED_ON]))
   = Some [[0x11, 1, 0, 0, 0, 0, 0, 0], [0, 0, 0, 0, 0, 0, 0, 0], [0x74, 0, 0, 0, 3, 0, 0, 0]]"
  by (simp add: start_def vfd_led_generic_set_stmts_def vfd_set_icons_stmts_def
     vfd_send_packet_stmts_def step_simps icon_led_def LED_ON_def LED_OFF_def
     memset_all_def SHUTTLE_VFD_PACKET_SIZE_def vfd_reset_cursor_fields usb_ok_def
     kzalloc_vfd_def)
    (simp add: numeral_eq_Suc)


text \<open>
  A single caller: running the statements of \<^verbatim>\<open>vfd_led_generic_set\<close> to the end gives
  the state that the function \<open>vfd_led_generic_set\<close> computes.
\<close>

lemma vfd_set_icons_errlog:
  "errlog (vfd_set_icons usb vfd) = errlog vfd @ filter (\<lambda>r. r < 0)
     [usb (length (wire vfd)) (packet (vfd_set_icons usb vfd))]"
  by (simp add: vfd_set_icons_def)

lemma vfd_set_icons_state:
  "vfd_set_icons usb v =
     v\<lparr>packet := packet (vfd_set_icons usb v),
       wire := wire v @ [packet (vfd_set_icons usb v)],
       errlog := errlog v @ filter (\<lambda>r. r < 0)
          [usb (length (wire v)) (packet (vfd_set_icons usb v))],
       slept := slept v + SHUTTLE_VFD_SLEEP_MS\<rparr>"
  by (rule shuttle_vfd.equality) (simp_all add: vfd_set_icons_fields vfd_set_icons_errlog)

lemma run_vfd_set_icons_stmts:
  "run usb (replicate 11 0) \<lparr>dev = v, vfd_mutex = None, threads = [\<lparr>todo = vfd_set_icons_stmts, result = r\<rparr>]\<rparr> =
     Some \<lparr>dev = vfd_set_icons usb v, vfd_mutex = None,
           threads = [\<lparr>todo = [], result = usb (length (wire v)) (packet (vfd_set_icons usb v))\<rparr>]\<rparr>"
proof -
  have r: "replicate 11 (0::nat) = [0, 0, 0, 0, 0, 0, 0, 0, 0, 0, 0]"
    by (simp add: numeral_eq_Suc)
  have p: "(memset_all 0 SHUTTLE_VFD_PACKET_SIZE)
      [0 := 0x74, Suc 0 := a, 2 := b, 3 := c, 4 := d] = [0x74, a, b, c, d, 0, 0, 0]" for a b c d :: byte
    by (simp add: memset_all_def SHUTTLE_VFD_PACKET_SIZE_def numeral_eq_Suc)
  show ?thesis
    unfolding r
    apply (subst vfd_set_icons_state)
    apply (simp add: vfd_set_icons_stmts_def vfd_send_packet_stmts_def step_simps
        vfd_set_icons_packet_eq p)
    done
qed

lemma run_alone:
  "run usb (replicate 12 0) (start v [vfd_led_generic_set_stmts led val]) =
     Some \<lparr>dev = vfd_led_generic_set usb v led val, vfd_mutex = None,
           threads = [\<lparr>todo = [], result = usb (length (wire v))
              (packet (vfd_led_generic_set usb v led val))\<rparr>]\<rparr>"
proof -
  have r: "replicate 12 (0::nat) = 0 # replicate 11 0"
    by (simp add: numeral_eq_Suc)
  show ?thesis
    unfolding r
    by (simp add: start_def vfd_led_generic_set_stmts_def step_simps vfd_led_generic_set_def
          run_vfd_set_icons_stmts)
qed


end
